theory Spec2Isabelle
  imports Complex_Main
begin

section \<open>Astro Run: the simulation core of the sketch\<close>

text \<open>
  The sketch keeps its whole state in globals and mutates them once per frame.  The
  embedding below turns the globals into one record that every function takes and returns.
  JavaScript numbers are modelled by \<^typ>\<open>real\<close> where the code divides or adds fractions
  (positions, velocities, speed, timers) and by \<^typ>\<open>int\<close> where the code only counts
  (score, milestone, background index, jump count): rounding of IEEE doubles is not
  modelled.  Drawing code (\<open>display\<close>, the background painters, the particle burst and the
  colour fields of an obstacle) never feeds back into the values below and is left out.
  The host calls three functions of the sketch after start-up: \<open>draw\<close> once per frame,
  \<open>keyPressed\<close> for a key and \<open>windowResized\<close> when the canvas changes its size.
\<close>

subsection \<open>Game configuration\<close>

definition GRAVITY :: real where "GRAVITY = 6 / 10"
definition JUMP_FORCE :: real where "JUMP_FORCE = - 11"
definition DOUBLE_JUMP_FORCE :: real where "DOUBLE_JUMP_FORCE = - 9"
definition GROUND_Y_OFFSET :: real where "GROUND_Y_OFFSET = 80"
definition SCORE_MILESTONE :: int where "SCORE_MILESTONE = 100"
definition START_SPEED :: real where "START_SPEED = 4"
definition SPEED_INCREASE :: real where "SPEED_INCREASE = 3 / 1000"

subsection \<open>Data\<close>

text \<open>\<open>createVector(x, y)\<close>: the two coordinates the sketch uses.\<close>

record vector =
  vx :: real
  vy :: real

definition createVector :: "real \<Rightarrow> real \<Rightarrow> vector" where
  "createVector a b = \<lparr>vx = a, vy = b\<rparr>"

text \<open>\<open>p5.Vector.add\<close> and \<open>p5.Vector.mult\<close> on two coordinates.\<close>

definition vadd :: "vector \<Rightarrow> vector \<Rightarrow> vector" where
  "vadd u v = \<lparr>vx = vx u + vx v, vy = vy u + vy v\<rparr>"

definition vmult :: "vector \<Rightarrow> real \<Rightarrow> vector" where
  "vmult u k = \<lparr>vx = vx u * k, vy = vy u * k\<rparr>"

text \<open>
  Class \<open>Astronaut\<close>; the fields \<open>w\<close> and \<open>h\<close> are \<open>astro_w\<close> and \<open>astro_h\<close> here, and
  the position is the centre of the box.
\<close>

record astronaut =
  astro_w :: real
  astro_h :: real
  pos :: vector
  vel :: vector
  acc :: vector
  isGrounded :: bool
  jumpCount :: int

text \<open>
  Class \<open>Obstacle\<close>; the fields \<open>pos\<close>, \<open>w\<close> and \<open>h\<close> are \<open>obs_pos\<close>, \<open>obs_w\<close> and
  \<open>obs_h\<close>, and the position is the top-left corner of the box.
\<close>

record obstacle =
  obs_pos :: vector
  obs_w :: real
  obs_h :: real

subsection \<open>Class Astronaut\<close>

definition reset :: "real \<Rightarrow> real \<Rightarrow> astronaut \<Rightarrow> astronaut" where
  "reset a b p =
     p\<lparr>pos := createVector a b, vel := createVector 0 0, acc := createVector 0 0,
       isGrounded := True, jumpCount := 0\<rparr>"

definition applyForce :: "vector \<Rightarrow> astronaut \<Rightarrow> astronaut" where
  "applyForce force p = p\<lparr>acc := vadd (acc p) force\<rparr>"

definition applyGravity :: "astronaut \<Rightarrow> astronaut" where
  "applyGravity p = applyForce (createVector 0 GRAVITY) p"

definition jump :: "astronaut \<Rightarrow> astronaut" where
  "jump p =
     (if isGrounded p then
        p\<lparr>vel := (vel p)\<lparr>vy := JUMP_FORCE\<rparr>, isGrounded := False, jumpCount := 1\<rparr>
      else if jumpCount p < 2 then
        p\<lparr>vel := (vel p)\<lparr>vy := DOUBLE_JUMP_FORCE\<rparr>, jumpCount := 2\<rparr>
      else p)"

text \<open>\<open>update()\<close> reads the global \<open>groundY\<close>, which is the first argument here.\<close>

definition Astronaut_update :: "real \<Rightarrow> astronaut \<Rightarrow> astronaut" where
  "Astronaut_update gY p =
     (let p = p\<lparr>vel := vadd (vel p) (acc p)\<rparr>;
          p = p\<lparr>pos := vadd (pos p) (vel p)\<rparr>;
          p = p\<lparr>acc := vmult (acc p) 0\<rparr>
      in if vy (pos p) + astro_h p / 2 > gY then
           p\<lparr>pos := (pos p)\<lparr>vy := gY - astro_h p / 2\<rparr>, vel := (vel p)\<lparr>vy := 0\<rparr>,
             isGrounded := True, jumpCount := 0\<rparr>
         else p)"

definition checkGroundCollision :: "real \<Rightarrow> astronaut \<Rightarrow> astronaut" where
  "checkGroundCollision gndY p =
     (if vy (pos p) + astro_h p / 2 \<ge> gndY \<and> vy (vel p) \<ge> 0 then
        p\<lparr>pos := (pos p)\<lparr>vy := gndY - astro_h p / 2\<rparr>, vel := (vel p)\<lparr>vy := 0\<rparr>,
          isGrounded := True, jumpCount := 0\<rparr>
      else if vy (pos p) + astro_h p / 2 < gndY then p
      else p)"

text \<open>The four edges that \<open>hits\<close> computes for each box before it compares them.\<close>

definition astroLeft :: "astronaut \<Rightarrow> real" where
  "astroLeft p = vx (pos p) - astro_w p / 2"
definition astroRight :: "astronaut \<Rightarrow> real" where
  "astroRight p = vx (pos p) + astro_w p / 2"
definition astroTop :: "astronaut \<Rightarrow> real" where
  "astroTop p = vy (pos p) - astro_h p / 2"
definition astroBottom :: "astronaut \<Rightarrow> real" where
  "astroBottom p = vy (pos p) + astro_h p / 2"

definition obsLeft :: "obstacle \<Rightarrow> real" where
  "obsLeft ob = vx (obs_pos ob)"
definition obsRight :: "obstacle \<Rightarrow> real" where
  "obsRight ob = vx (obs_pos ob) + obs_w ob"
definition obsTop :: "obstacle \<Rightarrow> real" where
  "obsTop ob = vy (obs_pos ob)"
definition obsBottom :: "obstacle \<Rightarrow> real" where
  "obsBottom ob = vy (obs_pos ob) + obs_h ob"

definition hits :: "astronaut \<Rightarrow> obstacle \<Rightarrow> bool" where
  "hits p ob =
     (let noCollision =
            (astroRight p < obsLeft ob \<or> astroLeft p > obsRight ob \<or>
             astroBottom p < obsTop ob \<or> astroTop p > obsBottom ob)
      in \<not> noCollision)"

subsection \<open>Class Obstacle\<close>

definition Obstacle_update :: "real \<Rightarrow> obstacle \<Rightarrow> obstacle" where
  "Obstacle_update speed ob = ob\<lparr>obs_pos := (obs_pos ob)\<lparr>vx := vx (obs_pos ob) - speed\<rparr>\<rparr>"

definition isOffscreen :: "obstacle \<Rightarrow> bool" where
  "isOffscreen ob = (vx (obs_pos ob) + obs_w ob < 0)"

definition Obstacle :: "real \<Rightarrow> real \<Rightarrow> real \<Rightarrow> real \<Rightarrow> obstacle" where
  "Obstacle a b ow oh = \<lparr>obs_pos = createVector a b, obs_w = ow, obs_h = oh\<rparr>"

subsection \<open>Game state\<close>

datatype phase = START | PLAYING | GAME_OVER

text \<open>
  The globals of the sketch.  \<open>width\<close> is the canvas width of p5; \<open>storeItemCalls\<close> is the
  log of the calls of \<open>storeItem\<close> (key and value, oldest first), which stands for the
  local storage the sketch writes to.
\<close>

record game =
  astronaut :: astronaut
  obstacles :: "obstacle list"
  score :: int
  highScore :: int
  currentMilestone :: int
  backgroundIndex :: int
  gameState :: phase
  obstacleSpeed :: real
  spawnTimer :: real
  spawnInterval :: real
  groundY :: real
  width :: real
  storeItemCalls :: "(string \<times> int) list"

definition storeItem :: "string \<Rightarrow> int \<Rightarrow> game \<Rightarrow> game" where
  "storeItem k v g = g\<lparr>storeItemCalls := storeItemCalls g @ [(k, v)]\<rparr>"

text \<open>
  The values that the calls of \<open>random\<close> return during one frame, in the order of the
  calls: the height and the width of a spawned obstacle and the next spawn timer.  They
  are inputs of the model, so every theorem holds for whatever the generator returns.
\<close>

record draws =
  rand_h :: real
  rand_w :: real
  rand_timer :: real

subsection \<open>Game state functions\<close>

definition resetGame :: "game \<Rightarrow> game" where
  "resetGame g =
     (let g = g\<lparr>score := 0\<rparr>;
          g = g\<lparr>currentMilestone := SCORE_MILESTONE\<rparr>;
          g = g\<lparr>backgroundIndex := 0\<rparr>;
          g = g\<lparr>obstacles := []\<rparr>;
          g = g\<lparr>obstacleSpeed := START_SPEED\<rparr>;
          g = g\<lparr>spawnTimer := spawnInterval g\<rparr>
      in g\<lparr>astronaut :=
             reset (width g / 4) (groundY g - astro_h (astronaut g) / 2) (astronaut g)\<rparr>)"

definition startGame :: "game \<Rightarrow> game" where
  "startGame g = (resetGame g)\<lparr>gameState := PLAYING\<rparr>"

text \<open>
  \<open>spawnObstacle\<close>: \<open>random(minH, maxH)\<close> returns \<open>rand_h d\<close> and \<open>random(30, 50)\<close>
  returns \<open>rand_w d\<close>.
\<close>

definition spawnObstacle :: "draws \<Rightarrow> game \<Rightarrow> game" where
  "spawnObstacle d g =
     (let oh = rand_h d;
          ow = rand_w d;
          obs = Obstacle (width g + ow) (groundY g - oh) ow oh
      in g\<lparr>obstacles := obstacles g @ [obs]\<rparr>)"

text \<open>\<open>obstacles.splice(i, 1)\<close>.\<close>

definition splice_at :: "nat \<Rightarrow> 'a list \<Rightarrow> 'a list" where
  "splice_at i xs = take i xs @ drop (Suc i) xs"

text \<open>
  The loop \<open>for (let i = obstacles.length - 1; i >= 0; i--)\<close> of \<open>updateGame\<close>.  The first
  argument is \<open>i + 1\<close>, so that \<open>0\<close> is the exit of the loop; \<open>break\<close> is the branch
  without a recursive call.
\<close>

fun obstacleLoop :: "nat \<Rightarrow> game \<Rightarrow> game" where
  "obstacleLoop 0 g = g"
| "obstacleLoop (Suc i) g =
     (let g = g\<lparr>obstacles := (obstacles g)[i := Obstacle_update (obstacleSpeed g) (obstacles g ! i)]\<rparr>
      in if hits (astronaut g) (obstacles g ! i) then
           (let g = g\<lparr>gameState := GAME_OVER\<rparr>
            in if score g > highScore g then
                 (let g = g\<lparr>highScore := score g\<rparr>
                  in storeItem ''astroRunHighScore'' (highScore g) g)
               else g)
         else if isOffscreen (obstacles g ! i) then
           obstacleLoop i (g\<lparr>obstacles := splice_at i (obstacles g)\<rparr>)
         else obstacleLoop i g)"

text \<open>
  The same loop with the array reads checked: \<open>None\<close> stands for the \<open>TypeError\<close> that
  JavaScript raises when \<open>obstacles[i]\<close> is \<open>undefined\<close>.
\<close>

fun obstacleLoop_checked :: "nat \<Rightarrow> game \<Rightarrow> game option" where
  "obstacleLoop_checked 0 g = Some g"
| "obstacleLoop_checked (Suc i) g =
     (if i < length (obstacles g) then
        (let g = g\<lparr>obstacles := (obstacles g)[i := Obstacle_update (obstacleSpeed g) (obstacles g ! i)]\<rparr>
         in if hits (astronaut g) (obstacles g ! i) then
              (let g = g\<lparr>gameState := GAME_OVER\<rparr>
               in if score g > highScore g then
                    (let g = g\<lparr>highScore := score g\<rparr>
                     in Some (storeItem ''astroRunHighScore'' (highScore g) g))
                  else Some g)
            else if isOffscreen (obstacles g ! i) then
              obstacleLoop_checked i (g\<lparr>obstacles := splice_at i (obstacles g)\<rparr>)
            else obstacleLoop_checked i g)
      else None)"

text \<open>
  \<open>updateGame\<close>, statement by statement.  \<open>random(spawnInterval * 0.8, spawnInterval * 1.2)\<close>
  returns \<open>rand_timer d\<close>.
\<close>

definition updateGame :: "draws \<Rightarrow> game \<Rightarrow> game" where
  "updateGame d g =
     (let g = g\<lparr>score := score g + 1\<rparr>;
          g = g\<lparr>obstacleSpeed := obstacleSpeed g + SPEED_INCREASE\<rparr>;
          g = g\<lparr>spawnInterval := max 40 (90 - real_of_int (score g) / 15)\<rparr>;
          g = (if score g \<ge> currentMilestone g then
                 g\<lparr>backgroundIndex := backgroundIndex g + 1,
                   currentMilestone := currentMilestone g + SCORE_MILESTONE\<rparr>
               else g);
          g = g\<lparr>astronaut := applyGravity (astronaut g)\<rparr>;
          g = g\<lparr>astronaut := Astronaut_update (groundY g) (astronaut g)\<rparr>;
          g = g\<lparr>astronaut := checkGroundCollision (groundY g) (astronaut g)\<rparr>;
          g = g\<lparr>spawnTimer := spawnTimer g - 1\<rparr>;
          g = (if spawnTimer g \<le> 0 then
                 (let g = spawnObstacle d g in g\<lparr>spawnTimer := rand_timer d\<rparr>)
               else g)
      in obstacleLoop (length (obstacles g)) g)"

text \<open>
  The blocks of \<open>updateGame\<close>, as its own comments delimit them: score and difficulty with
  the milestone check, the astronaut, the spawn timer, and the loop over the obstacles.
\<close>

definition difficultyStep :: "game \<Rightarrow> game" where
  "difficultyStep g =
     (let g = g\<lparr>score := score g + 1\<rparr>;
          g = g\<lparr>obstacleSpeed := obstacleSpeed g + SPEED_INCREASE\<rparr>;
          g = g\<lparr>spawnInterval := max 40 (90 - real_of_int (score g) / 15)\<rparr>
      in if score g \<ge> currentMilestone g then
           g\<lparr>backgroundIndex := backgroundIndex g + 1,
             currentMilestone := currentMilestone g + SCORE_MILESTONE\<rparr>
         else g)"

definition astronautStep :: "game \<Rightarrow> game" where
  "astronautStep g =
     (let g = g\<lparr>astronaut := applyGravity (astronaut g)\<rparr>;
          g = g\<lparr>astronaut := Astronaut_update (groundY g) (astronaut g)\<rparr>
      in g\<lparr>astronaut := checkGroundCollision (groundY g) (astronaut g)\<rparr>)"

definition spawnStep :: "draws \<Rightarrow> game \<Rightarrow> game" where
  "spawnStep d g =
     (let g = g\<lparr>spawnTimer := spawnTimer g - 1\<rparr>
      in if spawnTimer g \<le> 0 then
           (let g = spawnObstacle d g in g\<lparr>spawnTimer := rand_timer d\<rparr>)
         else g)"

definition handleObstacles :: "game \<Rightarrow> game" where
  "handleObstacles g = obstacleLoop (length (obstacles g)) g"

subsection \<open>Input handling and the frame function\<close>

record keyEvent =
  keyCode :: int
  key :: string

text \<open>\<open>keyPressed\<close>, without the particle burst.\<close>

definition keyPressed :: "keyEvent \<Rightarrow> game \<Rightarrow> game" where
  "keyPressed ke g =
     (if keyCode ke = 32 then
        (if gameState g = PLAYING then g\<lparr>astronaut := jump (astronaut g)\<rparr>
         else if gameState g = START then startGame g
         else g)
      else if (key ke = ''r'' \<or> key ke = ''R'') \<and> gameState g = GAME_OVER then startGame g
      else g)"

text \<open>\<open>draw\<close>: the \<open>switch\<close> on the game state, without the painting.\<close>

definition draw :: "draws \<Rightarrow> game \<Rightarrow> game" where
  "draw d g =
     (case gameState g of
        START \<Rightarrow>
          (let p = astronaut g;
               p = p\<lparr>pos := (pos p)\<lparr>vy := groundY g - astro_h p / 2\<rparr>\<rparr>;
               p = p\<lparr>vel := (vel p)\<lparr>vy := 0\<rparr>\<rparr>;
               p = p\<lparr>isGrounded := True\<rparr>;
               p = p\<lparr>jumpCount := 0\<rparr>
           in g\<lparr>astronaut := p\<rparr>)
      | PLAYING \<Rightarrow> updateGame d g
      | GAME_OVER \<Rightarrow> g)"

text \<open>
  The start-up function of the sketch (\<open>setupGame\<close> here): the canvas size and the stored high score (\<open>None\<close> when \<open>getItem\<close> returns
  \<open>null\<close>) are the inputs.  The constructor of \<open>Astronaut\<close> is inlined.
\<close>

definition new_Astronaut :: "real \<Rightarrow> real \<Rightarrow> astronaut" where
  "new_Astronaut cw gY =
     reset (cw / 4) (gY - 60 / 2)
       \<lparr>astro_w = 40, astro_h = 60, pos = createVector 0 0, vel = createVector 0 0,
        acc = createVector 0 0, isGrounded = False, jumpCount = 0\<rparr>"

definition setupGame :: "real \<Rightarrow> real \<Rightarrow> int option \<Rightarrow> game" where
  "setupGame cw ch storedHighScore =
     (let gY = ch - GROUND_Y_OFFSET
      in resetGame
           \<lparr>astronaut = new_Astronaut cw gY, obstacles = [], score = 0,
            highScore = (case storedHighScore of None \<Rightarrow> 0 | Some v \<Rightarrow> v),
            currentMilestone = SCORE_MILESTONE, backgroundIndex = 0, gameState = START,
            obstacleSpeed = START_SPEED, spawnTimer = 90, spawnInterval = 90,
            groundY = gY, width = cw, storeItemCalls = []\<rparr>)"

text \<open>
  \<open>windowResized\<close>: the new size of the window is the input; \<open>resizeCanvas\<close> makes it the
  size of the canvas.  The astronaut exists from start-up on, so the test \<open>if (astronaut)\<close>
  always succeeds.
\<close>

definition windowResized :: "real \<Rightarrow> real \<Rightarrow> game \<Rightarrow> game" where
  "windowResized windowWidth windowHeight g =
     (let g = g\<lparr>width := windowWidth\<rparr>;
          g = g\<lparr>groundY := windowHeight - GROUND_Y_OFFSET\<rparr>;
          p = astronaut g;
          p = p\<lparr>pos := (pos p)\<lparr>vx := width g / 4\<rparr>\<rparr>;
          p = p\<lparr>pos := (pos p)\<lparr>vy := min (vy (pos p)) (groundY g - astro_h p / 2)\<rparr>\<rparr>
      in g\<lparr>astronaut := p\<rparr>)"

text \<open>
  The events that the host delivers: a frame (with its random values), a key, or a new
  size of the window (width and height).
\<close>

datatype event = Frame draws | KeyPressed keyEvent | WindowResized real real

fun step :: "game \<Rightarrow> event \<Rightarrow> game" where
  "step g (Frame d) = draw d g"
| "step g (KeyPressed ke) = keyPressed ke g"
| "step g (WindowResized windowWidth windowHeight) = windowResized windowWidth windowHeight g"

definition run :: "game \<Rightarrow> event list \<Rightarrow> game" where
  "run g es = foldl step g es"

subsection \<open>Vocabulary of the properties\<close>

text \<open>
  The collision check that the loop makes for the obstacle at index \<open>i\<close>, in the state in
  which the loop starts: the obstacle is moved first and tested then.
\<close>

definition collidesAt :: "game \<Rightarrow> nat \<Rightarrow> bool" where
  "collidesAt g i = hits (astronaut g) (Obstacle_update (obstacleSpeed g) (obstacles g ! i))"

text \<open>The game is in state \<open>PLAYING\<close> before every event of the list and after the last.\<close>

fun staysPlaying :: "game \<Rightarrow> event list \<Rightarrow> bool" where
  "staysPlaying g [] = (gameState g = PLAYING)"
| "staysPlaying g (e # es) = (gameState g = PLAYING \<and> staysPlaying (step g e) es)"

fun isFrame :: "event \<Rightarrow> bool" where
  "isFrame (Frame d) = True"
| "isFrame (KeyPressed ke) = False"
| "isFrame (WindowResized windowWidth windowHeight) = False"

text \<open>A key event that \<open>keyPressed\<close> can take for the restart key.\<close>

fun isRestartKey :: "event \<Rightarrow> bool" where
  "isRestartKey (Frame d) = False"
| "isRestartKey (KeyPressed ke) = (key ke = ''r'' \<or> key ke = ''R'')"
| "isRestartKey (WindowResized windowWidth windowHeight) = False"



text \<open>
  Invariants.  The milestone is always the next multiple of \<open>SCORE_MILESTONE\<close> above the
  score.  For the physics of one frame: the astronaut has used at most two jumps, carries
  no acceleration between frames, and is at rest on the ground line whenever it is
  grounded.  For the whole game: the same, where the ground line is required only while
  the game is in \<open>PLAYING\<close>.
\<close>

definition milestoneInv :: "game \<Rightarrow> bool" where
  "milestoneInv g \<longleftrightarrow>
     currentMilestone g = SCORE_MILESTONE * (backgroundIndex g + 1) \<and>
     backgroundIndex g = score g div SCORE_MILESTONE"



text \<open>The state in which the loop over the obstacles starts during \<open>updateGame\<close>.\<close>

definition loopStart :: "draws \<Rightarrow> game \<Rightarrow> game" where
  "loopStart d g = spawnStep d (astronautStep (difficultyStep g))"

text \<open>
  The order of the blocks as the specification words it: difficulty, then spawning and the
  loop over the obstacles with its collision test, and the astronaut last.  It is compared
  with \<open>updateGame\<close> below.
\<close>

definition updateGame_claimed_order :: "draws \<Rightarrow> game \<Rightarrow> game" where
  "updateGame_claimed_order d g =
     astronautStep (handleObstacles (spawnStep d (difficultyStep g)))"

subsection \<open>Example states\<close>

text \<open>
  A game that has just been started on a canvas of 800 by 600 with the given stored high
  score; the same game one frame before a crash at score 250; a game with three obstacles
  of which the middle one is hit in the next frame; and an astronaut that falls onto an
  obstacle during the next frame.
\<close>

definition example_draws :: draws where
  "example_draws = \<lparr>rand_h = 40, rand_w = 40, rand_timer = 90\<rparr>"

definition fresh_game :: "int option \<Rightarrow> game" where
  "fresh_game stored = startGame (setupGame 800 600 stored)"

definition crash_example :: "int option \<Rightarrow> game" where
  "crash_example stored =
     (fresh_game stored)\<lparr>score := 249, obstacles := [Obstacle 210 480 40 40]\<rparr>"

definition pileup_example :: game where
  "pileup_example =
     (fresh_game None)
       \<lparr>obstacles := [Obstacle (- 45) 480 40 40, Obstacle 210 480 40 40,
                      Obstacle 600 480 40 40]\<rparr>"

definition falling_example :: game where
  "falling_example =
     (fresh_game None)
       \<lparr>astronaut := (astronaut (fresh_game None))
           \<lparr>pos := createVector 200 445, vel := createVector 0 10, isGrounded := False,
             jumpCount := 1\<rparr>,
        obstacles := [Obstacle 190 480 40 40]\<rparr>"

section \<open>Properties\<close>

subsection \<open>The astronaut\<close>

lemmas astro_defs = reset_def applyForce_def applyGravity_def jump_def Astronaut_update_def
  checkGroundCollision_def createVector_def vadd_def vmult_def

text \<open>
  Claim C2.  \<open>jump\<close> on a grounded astronaut sets the vertical velocity to \<open>JUMP_FORCE\<close>,
  which is \<open>-11\<close>, clears \<open>isGrounded\<close> and sets \<open>jumpCount\<close> to 1.  In the air with
  \<open>jumpCount < 2\<close> it sets the vertical velocity to \<open>DOUBLE_JUMP_FORCE\<close>, which is \<open>-9\<close> and
  smaller in magnitude, and \<open>jumpCount\<close> to 2.  In the air with \<open>jumpCount = 2\<close> it changes
  nothing at all.  Position, horizontal velocity and acceleration are never touched.
  Hence two jumps from the ground give \<open>jumpCount = 2\<close>, and a third one changes nothing.
\<close>

theorem jump_double_jump:
  "(isGrounded p \<longrightarrow>
      vy (vel (jump p)) = JUMP_FORCE \<and> \<not> isGrounded (jump p) \<and> jumpCount (jump p) = 1) \<and>
   (\<not> isGrounded p \<and> jumpCount p < 2 \<longrightarrow>
      vy (vel (jump p)) = DOUBLE_JUMP_FORCE \<and> \<not> isGrounded (jump p) \<and>
      jumpCount (jump p) = 2) \<and>
   (\<not> isGrounded p \<and> jumpCount p = 2 \<longrightarrow> jump p = p) \<and>
   pos (jump p) = pos p \<and> vx (vel (jump p)) = vx (vel p) \<and> acc (jump p) = acc p \<and>
   JUMP_FORCE = - 11 \<and> DOUBLE_JUMP_FORCE = - 9 \<and> \<bar>DOUBLE_JUMP_FORCE\<bar> < \<bar>JUMP_FORCE\<bar> \<and>
   (isGrounded p \<longrightarrow>
      jumpCount (jump (jump p)) = 2 \<and> jump (jump (jump p)) = jump (jump p))"
  by (simp add: jump_def JUMP_FORCE_def DOUBLE_JUMP_FORCE_def)

theorem jump_double_jump_witness:
  "isGrounded (new_Astronaut 800 520) \<and>
   vy (vel (jump (new_Astronaut 800 520))) = - 11 \<and>
   jumpCount (jump (new_Astronaut 800 520)) = 1 \<and>
   \<not> isGrounded (jump (new_Astronaut 800 520)) \<and>
   jumpCount (jump (new_Astronaut 800 520)) < 2 \<and>
   vy (vel (jump (jump (new_Astronaut 800 520)))) = - 9 \<and>
   jumpCount (jump (jump (new_Astronaut 800 520))) = 2 \<and>
   \<not> isGrounded (jump (jump (new_Astronaut 800 520))) \<and>
   jump (jump (jump (new_Astronaut 800 520))) = jump (jump (new_Astronaut 800 520))"
  using jump_double_jump [of "new_Astronaut 800 520"]
    jump_double_jump [of "jump (new_Astronaut 800 520)"]
    jump_double_jump [of "jump (jump (new_Astronaut 800 520))"]
  by (simp add: new_Astronaut_def reset_def)

text \<open>
  Claim C3.  When the lower edge of the astronaut is at or below \<open>gndY\<close> and the vertical
  velocity is not negative, \<open>checkGroundCollision\<close> puts the lower edge exactly on \<open>gndY\<close>,
  zeroes the vertical velocity, sets \<open>isGrounded\<close> and resets \<open>jumpCount\<close> to 0.  When the
  lower edge is above \<open>gndY\<close> it changes nothing.  It never clears \<open>isGrounded\<close>, and neither
  does any other method of the astronaut except \<open>jump\<close>, which does.
\<close>

theorem checkGroundCollision_lands:
  "(astroBottom p \<ge> gndY \<and> vy (vel p) \<ge> 0 \<longrightarrow>
      astroBottom (checkGroundCollision gndY p) = gndY \<and>
      vy (vel (checkGroundCollision gndY p)) = 0 \<and>
      isGrounded (checkGroundCollision gndY p) \<and>
      jumpCount (checkGroundCollision gndY p) = 0) \<and>
   (astroBottom p < gndY \<longrightarrow> checkGroundCollision gndY p = p) \<and>
   (isGrounded p \<longrightarrow>
      isGrounded (checkGroundCollision gndY p) \<and> isGrounded (reset a b p) \<and>
      isGrounded (applyForce f p) \<and> isGrounded (applyGravity p) \<and>
      isGrounded (Astronaut_update gY p) \<and> \<not> isGrounded (jump p))"
  by (simp add: astro_defs astroBottom_def Let_def)

theorem checkGroundCollision_lands_witness:
  "astroBottom ((new_Astronaut 800 520)\<lparr>pos := createVector 200 495, vel := createVector 0 7,
       isGrounded := False, jumpCount := 2\<rparr>) \<ge> 520 \<and>
   astroBottom (checkGroundCollision 520 ((new_Astronaut 800 520)\<lparr>pos := createVector 200 495,
       vel := createVector 0 7, isGrounded := False, jumpCount := 2\<rparr>)) = 520 \<and>
   jumpCount (checkGroundCollision 520 ((new_Astronaut 800 520)\<lparr>pos := createVector 200 495,
       vel := createVector 0 7, isGrounded := False, jumpCount := 2\<rparr>)) = 0 \<and>
   astroBottom ((new_Astronaut 800 520)\<lparr>pos := createVector 200 300\<rparr>) < 520 \<and>
   checkGroundCollision 520 ((new_Astronaut 800 520)\<lparr>pos := createVector 200 300\<rparr>) =
     (new_Astronaut 800 520)\<lparr>pos := createVector 200 300\<rparr> \<and>
   isGrounded (new_Astronaut 800 520) \<and>
   isGrounded (checkGroundCollision 520 (new_Astronaut 800 520)) \<and>
   \<not> isGrounded (jump (new_Astronaut 800 520))"
  using checkGroundCollision_lands [of 520 "(new_Astronaut 800 520)\<lparr>pos := createVector 200 495,
       vel := createVector 0 7, isGrounded := False, jumpCount := 2\<rparr>"]
    checkGroundCollision_lands [of 520 "(new_Astronaut 800 520)\<lparr>pos := createVector 200 300\<rparr>"]
    checkGroundCollision_lands [of 520 "new_Astronaut 800 520"]
  by (simp add: new_Astronaut_def reset_def createVector_def astroBottom_def)

subsection \<open>The collision test\<close>

lemmas edge_defs = astroLeft_def astroRight_def astroTop_def astroBottom_def
  obsLeft_def obsRight_def obsTop_def obsBottom_def

text \<open>
  Claim C4.  \<open>hits\<close> normalises the centred box of the astronaut and the top-left anchored
  box of the obstacle to their four edges, and answers "no collision" exactly when the
  astronaut's right edge is left of the obstacle's left edge, or its left edge is right of
  the obstacle's right edge, or its bottom is above the obstacle's top, or its top is below
  the obstacle's bottom.  So \<open>hits\<close> holds exactly when the closed intervals of the two
  boxes meet on both axes, and two boxes (of non-negative extent) that touch on an edge
  and overlap on the other axis collide.
\<close>

theorem hits_closed_intervals:
  "(hits p ob \<longleftrightarrow>
      \<not> (vx (pos p) + astro_w p / 2 < vx (obs_pos ob) \<or>
         vx (pos p) - astro_w p / 2 > vx (obs_pos ob) + obs_w ob \<or>
         vy (pos p) + astro_h p / 2 < vy (obs_pos ob) \<or>
         vy (pos p) - astro_h p / 2 > vy (obs_pos ob) + obs_h ob)) \<and>
   (hits p ob \<longleftrightarrow>
      astroLeft p \<le> obsRight ob \<and> obsLeft ob \<le> astroRight p \<and>
      astroTop p \<le> obsBottom ob \<and> obsTop ob \<le> astroBottom p) \<and>
   (0 \<le> astro_w p \<and> 0 \<le> obs_w ob \<and>
    (astroRight p = obsLeft ob \<or> astroLeft p = obsRight ob) \<and>
    astroTop p \<le> obsBottom ob \<and> obsTop ob \<le> astroBottom p \<longrightarrow> hits p ob) \<and>
   (0 \<le> astro_h p \<and> 0 \<le> obs_h ob \<and>
    (astroBottom p = obsTop ob \<or> astroTop p = obsBottom ob) \<and>
    astroLeft p \<le> obsRight ob \<and> obsLeft ob \<le> astroRight p \<longrightarrow> hits p ob)"
  unfolding hits_def Let_def edge_defs
  by (auto simp: not_less)

theorem hits_closed_intervals_witness:
  "astroRight (new_Astronaut 800 520) = obsLeft (Obstacle 220 480 40 40) \<and>
   astroTop (new_Astronaut 800 520) \<le> obsBottom (Obstacle 220 480 40 40) \<and>
   obsTop (Obstacle 220 480 40 40) \<le> astroBottom (new_Astronaut 800 520) \<and>
   hits (new_Astronaut 800 520) (Obstacle 220 480 40 40) \<and>
   astroBottom (new_Astronaut 800 520) = obsTop (Obstacle 190 520 40 40) \<and>
   astroLeft (new_Astronaut 800 520) \<le> obsRight (Obstacle 190 520 40 40) \<and>
   obsLeft (Obstacle 190 520 40 40) \<le> astroRight (new_Astronaut 800 520) \<and>
   hits (new_Astronaut 800 520) (Obstacle 190 520 40 40)"
  using hits_closed_intervals [of "new_Astronaut 800 520" "Obstacle 220 480 40 40"]
    hits_closed_intervals [of "new_Astronaut 800 520" "Obstacle 190 520 40 40"]
  by (simp add: new_Astronaut_def reset_def createVector_def Obstacle_def edge_defs)

subsection \<open>The blocks of updateGame\<close>

lemma Let_assoc: "Let (Let a f) h = Let a (\<lambda>x. Let (f x) h)"
  by (simp only: Let_def)

lemma updateGame_steps:
  "updateGame d g = handleObstacles (spawnStep d (astronautStep (difficultyStep g)))"
proof -
  have "handleObstacles (spawnStep d (astronautStep (difficultyStep g))) =
        (let g = difficultyStep g; g = astronautStep g; g = spawnStep d g
         in handleObstacles g)"
    by (simp only: Let_def)
  also have "\<dots> = updateGame d g"
    unfolding difficultyStep_def astronautStep_def spawnStep_def handleObstacles_def
      updateGame_def
    by (simp only: Let_assoc)
  finally show ?thesis by (rule sym)
qed

lemma difficultyStep_simps [simp]:
  "score (difficultyStep g) = score g + 1"
  "obstacleSpeed (difficultyStep g) = obstacleSpeed g + SPEED_INCREASE"
  "spawnInterval (difficultyStep g) = max 40 (90 - real_of_int (score g + 1) / 15)"
  "backgroundIndex (difficultyStep g) =
     (if score g + 1 \<ge> currentMilestone g then backgroundIndex g + 1 else backgroundIndex g)"
  "currentMilestone (difficultyStep g) =
     (if score g + 1 \<ge> currentMilestone g then currentMilestone g + SCORE_MILESTONE
      else currentMilestone g)"
  "astronaut (difficultyStep g) = astronaut g"
  "obstacles (difficultyStep g) = obstacles g"
  "highScore (difficultyStep g) = highScore g"
  "gameState (difficultyStep g) = gameState g"
  "spawnTimer (difficultyStep g) = spawnTimer g"
  "groundY (difficultyStep g) = groundY g"
  "width (difficultyStep g) = width g"
  "storeItemCalls (difficultyStep g) = storeItemCalls g"
  by (simp_all add: difficultyStep_def Let_def)

lemma astronautStep_simps [simp]:
  "astronaut (astronautStep g) =
     checkGroundCollision (groundY g) (Astronaut_update (groundY g) (applyGravity (astronaut g)))"
  "score (astronautStep g) = score g"
  "obstacleSpeed (astronautStep g) = obstacleSpeed g"
  "spawnInterval (astronautStep g) = spawnInterval g"
  "backgroundIndex (astronautStep g) = backgroundIndex g"
  "currentMilestone (astronautStep g) = currentMilestone g"
  "obstacles (astronautStep g) = obstacles g"
  "highScore (astronautStep g) = highScore g"
  "gameState (astronautStep g) = gameState g"
  "spawnTimer (astronautStep g) = spawnTimer g"
  "groundY (astronautStep g) = groundY g"
  "width (astronautStep g) = width g"
  "storeItemCalls (astronautStep g) = storeItemCalls g"
  by (simp_all add: astronautStep_def Let_def)

lemma spawnStep_simps [simp]:
  "obstacles (spawnStep d g) =
     (if spawnTimer g - 1 \<le> 0 then
        obstacles g @ [Obstacle (width g + rand_w d) (groundY g - rand_h d) (rand_w d) (rand_h d)]
      else obstacles g)"
  "spawnTimer (spawnStep d g) = (if spawnTimer g - 1 \<le> 0 then rand_timer d else spawnTimer g - 1)"
  "astronaut (spawnStep d g) = astronaut g"
  "score (spawnStep d g) = score g"
  "obstacleSpeed (spawnStep d g) = obstacleSpeed g"
  "spawnInterval (spawnStep d g) = spawnInterval g"
  "backgroundIndex (spawnStep d g) = backgroundIndex g"
  "currentMilestone (spawnStep d g) = currentMilestone g"
  "highScore (spawnStep d g) = highScore g"
  "gameState (spawnStep d g) = gameState g"
  "groundY (spawnStep d g) = groundY g"
  "width (spawnStep d g) = width g"
  "storeItemCalls (spawnStep d g) = storeItemCalls g"
  by (simp_all add: spawnStep_def spawnObstacle_def Let_def)

subsection \<open>The loop over the obstacles\<close>

lemma obstacleLoop_frame:
  "astronaut (obstacleLoop k g) = astronaut g \<and> score (obstacleLoop k g) = score g \<and>
   currentMilestone (obstacleLoop k g) = currentMilestone g \<and>
   backgroundIndex (obstacleLoop k g) = backgroundIndex g \<and>
   obstacleSpeed (obstacleLoop k g) = obstacleSpeed g \<and>
   spawnTimer (obstacleLoop k g) = spawnTimer g \<and>
   spawnInterval (obstacleLoop k g) = spawnInterval g \<and>
   groundY (obstacleLoop k g) = groundY g \<and> width (obstacleLoop k g) = width g"
  by (induction k arbitrary: g) (simp_all add: Let_def storeItem_def)

lemma obstacleLoop_checked_eq:
  "k \<le> length (obstacles g) \<Longrightarrow> obstacleLoop_checked k g = Some (obstacleLoop k g)"
  by (induction k arbitrary: g) (simp_all add: Let_def splice_at_def)

lemma obstacleLoop_miss:
  "k \<le> length (obstacles g) \<Longrightarrow>
   \<forall>i<k. \<not> hits (astronaut g) (Obstacle_update (obstacleSpeed g) (obstacles g ! i)) \<Longrightarrow>
   obstacleLoop k g =
     g\<lparr>obstacles :=
         filter (\<lambda>ob. \<not> isOffscreen ob)
           (map (Obstacle_update (obstacleSpeed g)) (take k (obstacles g))) @
         drop k (obstacles g)\<rparr>"
proof (induction k arbitrary: g)
  case 0
  then show ?case by simp
next
  case (Suc k)
  let ?obs = "obstacles g"
  let ?u = "Obstacle_update (obstacleSpeed g) (?obs ! k)"
  from Suc.prems have len: "k < length ?obs" by simp
  from Suc.prems have nohit: "\<not> hits (astronaut g) ?u" by simp
  have tk: "take (Suc k) ?obs = take k ?obs @ [?obs ! k]"
    using len by (simp add: take_Suc_conv_app_nth)
  show ?case
  proof (cases "isOffscreen ?u")
    case True
    let ?g2 = "g\<lparr>obstacles := splice_at k (?obs[k := ?u])\<rparr>"
    have sp: "splice_at k (?obs[k := ?u]) = take k ?obs @ drop (Suc k) ?obs"
      by (simp add: splice_at_def)
    have "obstacleLoop (Suc k) g = obstacleLoop k ?g2"
      using len nohit True by (simp add: Let_def)
    also have "\<dots> = ?g2\<lparr>obstacles :=
         filter (\<lambda>ob. \<not> isOffscreen ob)
           (map (Obstacle_update (obstacleSpeed ?g2)) (take k (obstacles ?g2))) @
         drop k (obstacles ?g2)\<rparr>"
    proof (rule Suc.IH)
      show "k \<le> length (obstacles ?g2)" using len by (simp add: sp)
      show "\<forall>i<k. \<not> hits (astronaut ?g2)
              (Obstacle_update (obstacleSpeed ?g2) (obstacles ?g2 ! i))"
        using Suc.prems len by (simp add: sp nth_append)
    qed
    also have "\<dots> = g\<lparr>obstacles :=
         filter (\<lambda>ob. \<not> isOffscreen ob)
           (map (Obstacle_update (obstacleSpeed g)) (take (Suc k) ?obs)) @
         drop (Suc k) ?obs\<rparr>"
      using len True by (simp add: sp tk)
    finally show ?thesis .
  next
    case False
    let ?g1 = "g\<lparr>obstacles := ?obs[k := ?u]\<rparr>"
    have "obstacleLoop (Suc k) g = obstacleLoop k ?g1"
      using len nohit False by (simp add: Let_def)
    also have "\<dots> = ?g1\<lparr>obstacles :=
         filter (\<lambda>ob. \<not> isOffscreen ob)
           (map (Obstacle_update (obstacleSpeed ?g1)) (take k (obstacles ?g1))) @
         drop k (obstacles ?g1)\<rparr>"
    proof (rule Suc.IH)
      show "k \<le> length (obstacles ?g1)" using len by simp
      show "\<forall>i<k. \<not> hits (astronaut ?g1)
              (Obstacle_update (obstacleSpeed ?g1) (obstacles ?g1 ! i))"
        using Suc.prems by simp
    qed
    also have "\<dots> = g\<lparr>obstacles :=
         filter (\<lambda>ob. \<not> isOffscreen ob)
           (map (Obstacle_update (obstacleSpeed g)) (take (Suc k) ?obs)) @
         drop (Suc k) ?obs\<rparr>"
      using len False by (simp add: tk drop_update_cancel Cons_nth_drop_Suc[symmetric] upd_conv_take_nth_drop)
    finally show ?thesis .
  qed
qed

lemma obstacleLoop_hit:
  "k \<le> length (obstacles g) \<Longrightarrow> i < k \<Longrightarrow>
   hits (astronaut g) (Obstacle_update (obstacleSpeed g) (obstacles g ! i)) \<Longrightarrow>
   \<forall>j. i < j \<and> j < k \<longrightarrow>
       \<not> hits (astronaut g) (Obstacle_update (obstacleSpeed g) (obstacles g ! j)) \<Longrightarrow>
   obstacleLoop k g =
     (let g' = g\<lparr>obstacles :=
                   take i (obstacles g) @
                   [Obstacle_update (obstacleSpeed g) (obstacles g ! i)] @
                   filter (\<lambda>ob. \<not> isOffscreen ob)
                     (map (Obstacle_update (obstacleSpeed g)) (drop (Suc i) (take k (obstacles g)))) @
                   drop k (obstacles g),
                 gameState := GAME_OVER\<rparr>
      in if score g > highScore g then
           g'\<lparr>highScore := score g,
              storeItemCalls := storeItemCalls g @ [(''astroRunHighScore'', score g)]\<rparr>
         else g')"
proof (induction k arbitrary: g)
  case 0
  then show ?case by simp
next
  case (Suc k)
  let ?obs = "obstacles g"
  let ?v = "obstacleSpeed g"
  let ?u = "Obstacle_update ?v (?obs ! k)"
  from Suc.prems have len: "k < length ?obs" by simp
  have tk: "take (Suc k) ?obs = take k ?obs @ [?obs ! k]"
    using len by (simp add: take_Suc_conv_app_nth)
  show ?case
  proof (cases "i = k")
    case True
    have hit: "hits (astronaut g) ?u"
      using Suc.prems(3) True by simp
    have step: "obstacleLoop (Suc k) g =
        (let g' = g\<lparr>obstacles := ?obs[k := ?u], gameState := GAME_OVER\<rparr>
         in if score g > highScore g then
              g'\<lparr>highScore := score g,
                 storeItemCalls := storeItemCalls g @ [(''astroRunHighScore'', score g)]\<rparr>
            else g')"
      using hit len by (simp add: Let_def storeItem_def)
    have "?obs[k := ?u] = take k ?obs @ [?u] @ drop (Suc k) ?obs"
      using len by (simp add: upd_conv_take_nth_drop)
    then show ?thesis
      unfolding step using True by simp
  next
    case False
    with Suc.prems have ik: "i < k" by simp
    with Suc.prems have nohit: "\<not> hits (astronaut g) ?u" by simp
    have dr: "drop (Suc i) (take (Suc k) ?obs) = drop (Suc i) (take k ?obs) @ [?obs ! k]"
      using ik len by (simp add: tk)
    show ?thesis
    proof (cases "isOffscreen ?u")
      case True
      let ?g2 = "g\<lparr>obstacles := splice_at k (?obs[k := ?u])\<rparr>"
      have sp: "splice_at k (?obs[k := ?u]) = take k ?obs @ drop (Suc k) ?obs"
        by (simp add: splice_at_def)
      have "obstacleLoop (Suc k) g = obstacleLoop k ?g2"
        using len nohit True by (simp add: Let_def)
      also have "\<dots> = (let g' = ?g2\<lparr>obstacles :=
                   take i (obstacles ?g2) @
                   [Obstacle_update (obstacleSpeed ?g2) (obstacles ?g2 ! i)] @
                   filter (\<lambda>ob. \<not> isOffscreen ob)
                     (map (Obstacle_update (obstacleSpeed ?g2)) (drop (Suc i) (take k (obstacles ?g2)))) @
                   drop k (obstacles ?g2),
                 gameState := GAME_OVER\<rparr>
          in if score ?g2 > highScore ?g2 then
               g'\<lparr>highScore := score ?g2,
                  storeItemCalls := storeItemCalls ?g2 @ [(''astroRunHighScore'', score ?g2)]\<rparr>
             else g')"
      proof (rule Suc.IH)
        show "k \<le> length (obstacles ?g2)" using len by (simp add: sp)
        show "i < k" by (rule ik)
        show "hits (astronaut ?g2) (Obstacle_update (obstacleSpeed ?g2) (obstacles ?g2 ! i))"
          using Suc.prems(3) ik len by (simp add: sp nth_append)
        show "\<forall>j. i < j \<and> j < k \<longrightarrow> \<not> hits (astronaut ?g2)
                (Obstacle_update (obstacleSpeed ?g2) (obstacles ?g2 ! j))"
          using Suc.prems(4) len by (simp add: sp nth_append)
      qed
      also have "\<dots> = (let g' = g\<lparr>obstacles :=
                   take i ?obs @ [Obstacle_update ?v (?obs ! i)] @
                   filter (\<lambda>ob. \<not> isOffscreen ob)
                     (map (Obstacle_update ?v) (drop (Suc i) (take (Suc k) ?obs))) @
                   drop (Suc k) ?obs,
                 gameState := GAME_OVER\<rparr>
          in if score g > highScore g then
               g'\<lparr>highScore := score g,
                  storeItemCalls := storeItemCalls g @ [(''astroRunHighScore'', score g)]\<rparr>
             else g')"
        using len ik True by (simp add: sp dr nth_append Let_def min_def)
      finally show ?thesis .
    next
      case False
      let ?g1 = "g\<lparr>obstacles := ?obs[k := ?u]\<rparr>"
      have "obstacleLoop (Suc k) g = obstacleLoop k ?g1"
        using len nohit False by (simp add: Let_def)
      also have "\<dots> = (let g' = ?g1\<lparr>obstacles :=
                   take i (obstacles ?g1) @
                   [Obstacle_update (obstacleSpeed ?g1) (obstacles ?g1 ! i)] @
                   filter (\<lambda>ob. \<not> isOffscreen ob)
                     (map (Obstacle_update (obstacleSpeed ?g1)) (drop (Suc i) (take k (obstacles ?g1)))) @
                   drop k (obstacles ?g1),
                 gameState := GAME_OVER\<rparr>
          in if score ?g1 > highScore ?g1 then
               g'\<lparr>highScore := score ?g1,
                  storeItemCalls := storeItemCalls ?g1 @ [(''astroRunHighScore'', score ?g1)]\<rparr>
             else g')"
      proof (rule Suc.IH)
        show "k \<le> length (obstacles ?g1)" using len by simp
        show "i < k" by (rule ik)
        show "hits (astronaut ?g1) (Obstacle_update (obstacleSpeed ?g1) (obstacles ?g1 ! i))"
          using Suc.prems(3) ik by simp
        show "\<forall>j. i < j \<and> j < k \<longrightarrow> \<not> hits (astronaut ?g1)
                (Obstacle_update (obstacleSpeed ?g1) (obstacles ?g1 ! j))"
          using Suc.prems(4) by simp
      qed
      also have "\<dots> = (let g' = g\<lparr>obstacles :=
                   take i ?obs @ [Obstacle_update ?v (?obs ! i)] @
                   filter (\<lambda>ob. \<not> isOffscreen ob)
                     (map (Obstacle_update ?v) (drop (Suc i) (take (Suc k) ?obs))) @
                   drop (Suc k) ?obs,
                 gameState := GAME_OVER\<rparr>
          in if score g > highScore g then
               g'\<lparr>highScore := score g,
                  storeItemCalls := storeItemCalls g @ [(''astroRunHighScore'', score g)]\<rparr>
             else g')"
        using len ik False
        by (simp add: dr Let_def drop_update_cancel Cons_nth_drop_Suc[symmetric]
            upd_conv_take_nth_drop nth_append)
      finally show ?thesis .
    qed
  qed
qed

lemma ex_last_index:
  "\<exists>i<k. P i \<Longrightarrow> \<exists>i<k. P i \<and> (\<forall>j. i < j \<and> j < (k::nat) \<longrightarrow> \<not> P j)"
proof (induction k)
  case 0
  then show ?case by simp
next
  case (Suc k)
  show ?case
  proof (cases "P k")
    case True
    then show ?thesis by (intro exI[of _ k]) auto
  next
    case False
    with Suc.prems have "\<exists>i<k. P i" by (metis less_Suc_eq)
    from Suc.IH[OF this] obtain i where "i < k" "P i" "\<forall>j. i < j \<and> j < k \<longrightarrow> \<not> P j"
      by blast
    with False show ?thesis
      by (intro exI[of _ i]) (auto simp: less_Suc_eq)
  qed
qed

lemma handleObstacles_simps [simp]:
  "astronaut (handleObstacles g) = astronaut g"
  "score (handleObstacles g) = score g"
  "obstacleSpeed (handleObstacles g) = obstacleSpeed g"
  "spawnInterval (handleObstacles g) = spawnInterval g"
  "backgroundIndex (handleObstacles g) = backgroundIndex g"
  "currentMilestone (handleObstacles g) = currentMilestone g"
  "spawnTimer (handleObstacles g) = spawnTimer g"
  "groundY (handleObstacles g) = groundY g"
  "width (handleObstacles g) = width g"
  by (simp_all add: handleObstacles_def obstacleLoop_frame)

lemma handleObstacles_miss:
  assumes "\<forall>i<length (obstacles g). \<not> collidesAt g i"
  shows "handleObstacles g =
     g\<lparr>obstacles := filter (\<lambda>ob. \<not> isOffscreen ob)
                      (map (Obstacle_update (obstacleSpeed g)) (obstacles g))\<rparr>"
  using obstacleLoop_miss [of "length (obstacles g)" g] assms
  by (simp add: handleObstacles_def collidesAt_def)

lemma handleObstacles_hit:
  assumes "i < length (obstacles g)" "collidesAt g i"
    "\<forall>j. i < j \<and> j < length (obstacles g) \<longrightarrow> \<not> collidesAt g j"
  shows "handleObstacles g =
     (let g' = g\<lparr>obstacles :=
                   take i (obstacles g) @
                   [Obstacle_update (obstacleSpeed g) (obstacles g ! i)] @
                   filter (\<lambda>ob. \<not> isOffscreen ob)
                     (map (Obstacle_update (obstacleSpeed g)) (drop (Suc i) (obstacles g))),
                 gameState := GAME_OVER\<rparr>
      in if score g > highScore g then
           g'\<lparr>highScore := score g,
              storeItemCalls := storeItemCalls g @ [(''astroRunHighScore'', score g)]\<rparr>
         else g')"
  using obstacleLoop_hit [of "length (obstacles g)" g i] assms
  by (simp add: handleObstacles_def collidesAt_def)

lemma handleObstacles_outcome:
  "(\<not> (\<exists>i<length (obstacles g). collidesAt g i) \<and>
      gameState (handleObstacles g) = gameState g \<and>
      highScore (handleObstacles g) = highScore g \<and>
      storeItemCalls (handleObstacles g) = storeItemCalls g) \<or>
   ((\<exists>i<length (obstacles g). collidesAt g i) \<and>
      gameState (handleObstacles g) = GAME_OVER \<and>
      highScore (handleObstacles g) = max (highScore g) (score g) \<and>
      storeItemCalls (handleObstacles g) =
        (if score g > highScore g then storeItemCalls g @ [(''astroRunHighScore'', score g)]
         else storeItemCalls g))"
proof (cases "\<exists>i<length (obstacles g). collidesAt g i")
  case False
  then have "\<forall>i<length (obstacles g). \<not> collidesAt g i" by blast
  from handleObstacles_miss [OF this] False show ?thesis by simp
next
  case True
  from ex_last_index [of "length (obstacles g)" "collidesAt g", OF True]
  obtain i where i: "i < length (obstacles g)" "collidesAt g i"
    "\<forall>j. i < j \<and> j < length (obstacles g) \<longrightarrow> \<not> collidesAt g j" by blast
  from handleObstacles_hit [OF i] True show ?thesis by (simp add: Let_def)
qed

subsection \<open>Frames, runs and the end of a run\<close>

lemma draw_PLAYING: "gameState g = PLAYING \<Longrightarrow> draw d g = updateGame d g"
  by (simp add: draw_def)

lemma draw_GAME_OVER: "gameState g = GAME_OVER \<Longrightarrow> draw d g = g"
  by (simp add: draw_def)

lemma run_Cons: "run g (e # es) = run (step g e) es"
  by (simp add: run_def)

lemma run_Nil: "run g [] = g"
  by (simp add: run_def)

lemma updateGame_outcome:
  "(\<not> (\<exists>i<length (obstacles (spawnStep d (astronautStep (difficultyStep g)))).
          collidesAt (spawnStep d (astronautStep (difficultyStep g))) i) \<and>
      gameState (updateGame d g) = gameState g \<and>
      highScore (updateGame d g) = highScore g \<and>
      storeItemCalls (updateGame d g) = storeItemCalls g) \<or>
   ((\<exists>i<length (obstacles (spawnStep d (astronautStep (difficultyStep g)))).
          collidesAt (spawnStep d (astronautStep (difficultyStep g))) i) \<and>
      gameState (updateGame d g) = GAME_OVER \<and>
      highScore (updateGame d g) = max (highScore g) (score g + 1) \<and>
      storeItemCalls (updateGame d g) =
        (if score g + 1 > highScore g
         then storeItemCalls g @ [(''astroRunHighScore'', score g + 1)]
         else storeItemCalls g))"
proof -
  let ?g1 = "spawnStep d (astronautStep (difficultyStep g))"
  have f: "gameState ?g1 = gameState g" "highScore ?g1 = highScore g"
    "storeItemCalls ?g1 = storeItemCalls g" "score ?g1 = score g + 1"
    by simp_all
  show ?thesis
    using handleObstacles_outcome [of ?g1]
    unfolding updateGame_steps f .
qed

lemma score_updateGame: "score (updateGame d g) = score g + 1"
  by (simp add: updateGame_steps)

lemma step_playing_outcome:
  assumes "gameState g = PLAYING"
  shows "(gameState (step g e) = PLAYING \<and> highScore (step g e) = highScore g \<and>
          storeItemCalls (step g e) = storeItemCalls g) \<or>
         (gameState (step g e) = GAME_OVER \<and>
          highScore (step g e) = max (highScore g) (score (step g e)) \<and>
          storeItemCalls (step g e) =
            (if score (step g e) > highScore g
             then storeItemCalls g @ [(''astroRunHighScore'', score (step g e))]
             else storeItemCalls g))"
proof (cases e)
  case (Frame d)
  show ?thesis
    using updateGame_outcome [of d g] assms
    by (auto simp: Frame draw_PLAYING score_updateGame)
next
  case (KeyPressed ke)
  then show ?thesis using assms by (simp add: keyPressed_def)
next
  case (WindowResized windowWidth windowHeight)
  then show ?thesis using assms by (simp add: windowResized_def Let_def)
qed

lemma step_frozen:
  "gameState g = GAME_OVER \<Longrightarrow> \<not> isRestartKey e \<Longrightarrow>
   gameState (step g e) = GAME_OVER \<and> score (step g e) = score g \<and>
   highScore (step g e) = highScore g \<and> storeItemCalls (step g e) = storeItemCalls g"
  by (cases e) (simp_all add: draw_GAME_OVER keyPressed_def windowResized_def Let_def)

lemma run_frozen:
  "gameState g = GAME_OVER \<Longrightarrow> \<forall>e\<in>set es. \<not> isRestartKey e \<Longrightarrow>
   gameState (run g es) = GAME_OVER \<and> score (run g es) = score g \<and>
   highScore (run g es) = highScore g \<and> storeItemCalls (run g es) = storeItemCalls g"
proof (induction es arbitrary: g)
  case Nil
  then show ?case by (simp add: run_Nil)
next
  case (Cons e es)
  from Cons.prems have ne: "\<not> isRestartKey e" and nr: "\<forall>e\<in>set es. \<not> isRestartKey e"
    by simp_all
  from step_frozen [OF Cons.prems(1) ne]
  have f: "gameState (step g e) = GAME_OVER" "score (step g e) = score g"
    "highScore (step g e) = highScore g" "storeItemCalls (step g e) = storeItemCalls g"
    by simp_all
  from Cons.IH [OF f(1) nr] f show ?case by (simp only: run_Cons)
qed

lemma run_outcome:
  "gameState g = PLAYING \<Longrightarrow> \<forall>e\<in>set es. \<not> isRestartKey e \<Longrightarrow>
   (gameState (run g es) = PLAYING \<and> highScore (run g es) = highScore g \<and>
    storeItemCalls (run g es) = storeItemCalls g) \<or>
   (gameState (run g es) = GAME_OVER \<and>
    highScore (run g es) = max (highScore g) (score (run g es)) \<and>
    storeItemCalls (run g es) =
      (if score (run g es) > highScore g
       then storeItemCalls g @ [(''astroRunHighScore'', score (run g es))]
       else storeItemCalls g))"
proof (induction es arbitrary: g)
  case Nil
  then show ?case by (simp add: run_Nil)
next
  case (Cons e es)
  from Cons.prems have nr: "\<forall>e\<in>set es. \<not> isRestartKey e" by simp
  from step_playing_outcome [OF Cons.prems(1), of e]
  show ?case
  proof
    assume a: "gameState (step g e) = PLAYING \<and> highScore (step g e) = highScore g \<and>
          storeItemCalls (step g e) = storeItemCalls g"
    then have "gameState (step g e) = PLAYING" by simp
    from Cons.IH [OF this nr] a show ?thesis by (simp only: run_Cons)
  next
    assume a: "gameState (step g e) = GAME_OVER \<and>
          highScore (step g e) = max (highScore g) (score (step g e)) \<and>
          storeItemCalls (step g e) =
            (if score (step g e) > highScore g
             then storeItemCalls g @ [(''astroRunHighScore'', score (step g e))]
             else storeItemCalls g)"
    then have "gameState (step g e) = GAME_OVER" by simp
    from run_frozen [OF this nr]
    have r: "gameState (run (step g e) es) = GAME_OVER"
      "score (run (step g e) es) = score (step g e)"
      "highScore (run (step g e) es) = highScore (step g e)"
      "storeItemCalls (run (step g e) es) = storeItemCalls (step g e)"
      by simp_all
    from a show ?thesis unfolding run_Cons r by simp
  qed
qed

lemma updateGame_prefix_untouched:
  assumes "i < length (obstacles (spawnStep d (astronautStep (difficultyStep g))))"
    "collidesAt (spawnStep d (astronautStep (difficultyStep g))) i"
    "\<forall>j. i < j \<and> j < length (obstacles (spawnStep d (astronautStep (difficultyStep g)))) \<longrightarrow>
         \<not> collidesAt (spawnStep d (astronautStep (difficultyStep g))) j"
  shows "take i (obstacles (updateGame d g)) = take i (obstacles g)"
proof -
  let ?g1 = "spawnStep d (astronautStep (difficultyStep g))"
  have "obstacles (updateGame d g) =
          take i (obstacles ?g1) @
          [Obstacle_update (obstacleSpeed ?g1) (obstacles ?g1 ! i)] @
          filter (\<lambda>ob. \<not> isOffscreen ob)
            (map (Obstacle_update (obstacleSpeed ?g1)) (drop (Suc i) (obstacles ?g1)))"
    unfolding updateGame_steps handleObstacles_hit [OF assms] by (simp add: Let_def)
  moreover have "length (take i (obstacles ?g1)) = i" using assms(1) by simp
  ultimately have "take i (obstacles (updateGame d g)) = take i (obstacles ?g1)"
    by simp
  moreover have "take i (obstacles ?g1) = take i (obstacles g)"
    using assms(1) by (simp split: if_splits)
  ultimately show ?thesis by simp
qed

lemmas eval_defs = setupGame_def startGame_def resetGame_def new_Astronaut_def astro_defs
  GROUND_Y_OFFSET_def SCORE_MILESTONE_def START_SPEED_def SPEED_INCREASE_def GRAVITY_def
  JUMP_FORCE_def DOUBLE_JUMP_FORCE_def
  draw_def updateGame_steps difficultyStep_def astronautStep_def spawnStep_def
  handleObstacles_def spawnObstacle_def Obstacle_def Obstacle_update_def isOffscreen_def
  hits_def edge_defs splice_at_def storeItem_def collidesAt_def loopStart_def
  keyPressed_def windowResized_def run_def example_draws_def fresh_game_def crash_example_def
  pileup_example_def falling_example_def Let_def

text \<open>
  Claim C1.  In a frame of \<open>PLAYING\<close> in which the loop finds an obstacle that the astronaut
  hits, the game state becomes \<open>GAME_OVER\<close> in that frame and the obstacles in front of the
  hit one (those the loop has not reached yet) are left as they were.  If the score of that
  moment exceeds \<open>highScore\<close>, then \<open>highScore\<close> becomes the score and \<open>storeItem\<close> is called
  once, with that score; otherwise \<open>highScore\<close> stays and nothing is stored.  A frame
  without a hit stores nothing.  Over any sequence of frames and keys without the restart
  key, a game that starts in \<open>PLAYING\<close> therefore stores at most one value, namely the final
  score when the run ends above the old high score.
\<close>

theorem collision_ends_run:
  "(gameState g = PLAYING \<longrightarrow>
      score (draw d g) = score g + 1 \<and>
      ((\<exists>k<length (obstacles (loopStart d g)). collidesAt (loopStart d g) k) \<longrightarrow>
         gameState (draw d g) = GAME_OVER \<and>
         (score (draw d g) > highScore g \<longrightarrow>
            highScore (draw d g) = score (draw d g) \<and>
            storeItemCalls (draw d g) =
              storeItemCalls g @ [(''astroRunHighScore'', score (draw d g))]) \<and>
         (score (draw d g) \<le> highScore g \<longrightarrow>
            highScore (draw d g) = highScore g \<and>
            storeItemCalls (draw d g) = storeItemCalls g)) \<and>
      (i < length (obstacles (loopStart d g)) \<and> collidesAt (loopStart d g) i \<and>
       (\<forall>j. i < j \<and> j < length (obstacles (loopStart d g)) \<longrightarrow>
            \<not> collidesAt (loopStart d g) j) \<longrightarrow>
         take i (obstacles (draw d g)) = take i (obstacles g)) \<and>
      (\<not> (\<exists>k<length (obstacles (loopStart d g)). collidesAt (loopStart d g) k) \<longrightarrow>
         gameState (draw d g) = PLAYING \<and> highScore (draw d g) = highScore g \<and>
         storeItemCalls (draw d g) = storeItemCalls g)) \<and>
   (gameState g = PLAYING \<and> (\<forall>e\<in>set es. \<not> isRestartKey e) \<longrightarrow>
      (gameState (run g es) = PLAYING \<and> highScore (run g es) = highScore g \<and>
       storeItemCalls (run g es) = storeItemCalls g) \<or>
      (gameState (run g es) = GAME_OVER \<and>
       highScore (run g es) = max (highScore g) (score (run g es)) \<and>
       storeItemCalls (run g es) =
         (if score (run g es) > highScore g
          then storeItemCalls g @ [(''astroRunHighScore'', score (run g es))]
          else storeItemCalls g)))"
proof (intro conjI impI)
  assume p: "gameState g = PLAYING"
  show "score (draw d g) = score g + 1"
    using p by (simp add: draw_PLAYING score_updateGame)
  show "\<not> (\<exists>k<length (obstacles (loopStart d g)). collidesAt (loopStart d g) k) \<Longrightarrow>
        gameState (draw d g) = PLAYING"
    using updateGame_outcome [of d g] p by (auto simp: draw_PLAYING loopStart_def)
  show "\<not> (\<exists>k<length (obstacles (loopStart d g)). collidesAt (loopStart d g) k) \<Longrightarrow>
        highScore (draw d g) = highScore g"
    using updateGame_outcome [of d g] p by (auto simp: draw_PLAYING loopStart_def)
  show "\<not> (\<exists>k<length (obstacles (loopStart d g)). collidesAt (loopStart d g) k) \<Longrightarrow>
        storeItemCalls (draw d g) = storeItemCalls g"
    using updateGame_outcome [of d g] p by (auto simp: draw_PLAYING loopStart_def)
  show "\<exists>k<length (obstacles (loopStart d g)). collidesAt (loopStart d g) k \<Longrightarrow>
        gameState (draw d g) = GAME_OVER"
    using updateGame_outcome [of d g] p by (auto simp: draw_PLAYING loopStart_def)
  show "\<exists>k<length (obstacles (loopStart d g)). collidesAt (loopStart d g) k \<Longrightarrow>
        highScore g < score (draw d g) \<Longrightarrow> highScore (draw d g) = score (draw d g)"
    using updateGame_outcome [of d g] p
    by (auto simp: draw_PLAYING loopStart_def score_updateGame)
  show "\<exists>k<length (obstacles (loopStart d g)). collidesAt (loopStart d g) k \<Longrightarrow>
        highScore g < score (draw d g) \<Longrightarrow>
        storeItemCalls (draw d g) =
          storeItemCalls g @ [(''astroRunHighScore'', score (draw d g))]"
    using updateGame_outcome [of d g] p
    by (auto simp: draw_PLAYING loopStart_def score_updateGame)
  show "\<exists>k<length (obstacles (loopStart d g)). collidesAt (loopStart d g) k \<Longrightarrow>
        score (draw d g) \<le> highScore g \<Longrightarrow> highScore (draw d g) = highScore g"
    using updateGame_outcome [of d g] p
    by (auto simp: draw_PLAYING loopStart_def score_updateGame)
  show "\<exists>k<length (obstacles (loopStart d g)). collidesAt (loopStart d g) k \<Longrightarrow>
        score (draw d g) \<le> highScore g \<Longrightarrow>
        storeItemCalls (draw d g) = storeItemCalls g"
    using updateGame_outcome [of d g] p
    by (auto simp: draw_PLAYING loopStart_def score_updateGame)
  show "i < length (obstacles (loopStart d g)) \<and> collidesAt (loopStart d g) i \<and>
       (\<forall>j. i < j \<and> j < length (obstacles (loopStart d g)) \<longrightarrow>
            \<not> collidesAt (loopStart d g) j) \<Longrightarrow>
        take i (obstacles (draw d g)) = take i (obstacles g)"
    using updateGame_prefix_untouched [of i d g] p
    by (simp add: draw_PLAYING loopStart_def)
next
  assume "gameState g = PLAYING \<and> (\<forall>e\<in>set es. \<not> isRestartKey e)"
  then show "(gameState (run g es) = PLAYING \<and> highScore (run g es) = highScore g \<and>
       storeItemCalls (run g es) = storeItemCalls g) \<or>
      (gameState (run g es) = GAME_OVER \<and>
       highScore (run g es) = max (highScore g) (score (run g es)) \<and>
       storeItemCalls (run g es) =
         (if score (run g es) > highScore g
          then storeItemCalls g @ [(''astroRunHighScore'', score (run g es))]
          else storeItemCalls g))"
    using run_outcome [of g es] by simp
qed

theorem collision_ends_run_witness:
  "gameState (crash_example (Some 200)) = PLAYING \<and>
   score (crash_example (Some 200)) = 249 \<and>
   highScore (crash_example (Some 200)) = 200 \<and>
   storeItemCalls (crash_example (Some 200)) = [] \<and>
   collidesAt (loopStart example_draws (crash_example (Some 200))) 0 \<and>
   gameState (draw example_draws (crash_example (Some 200))) = GAME_OVER \<and>
   score (draw example_draws (crash_example (Some 200))) = 250 \<and>
   highScore (draw example_draws (crash_example (Some 200))) = 250 \<and>
   storeItemCalls (draw example_draws (crash_example (Some 200))) =
     [(''astroRunHighScore'', 250)] \<and>
   take 0 (obstacles (draw example_draws (crash_example (Some 200)))) =
     take 0 (obstacles (crash_example (Some 200))) \<and>
   storeItemCalls (run (crash_example (Some 200))
       [Frame example_draws, Frame example_draws,
        KeyPressed \<lparr>keyCode = 32, key = '' ''\<rparr>, Frame example_draws]) =
     [(''astroRunHighScore'', 250)] \<and>
   highScore (crash_example (Some 300)) = 300 \<and>
   gameState (draw example_draws (crash_example (Some 300))) = GAME_OVER \<and>
   highScore (draw example_draws (crash_example (Some 300))) = 300 \<and>
   storeItemCalls (draw example_draws (crash_example (Some 300))) = [] \<and>
   collidesAt (loopStart example_draws pileup_example) 1 \<and>
   \<not> collidesAt (loopStart example_draws pileup_example) 2 \<and>
   take 1 (obstacles (draw example_draws pileup_example)) = [Obstacle (- 45) 480 40 40]"
proof -
  let ?d = example_draws
  let ?g = "crash_example (Some 200)"
  let ?h = "crash_example (Some 300)"
  let ?es = "[Frame ?d, Frame ?d, KeyPressed \<lparr>keyCode = 32, key = '' ''\<rparr>, Frame ?d]"
  have g: "gameState ?g = PLAYING" "score ?g = 249" "highScore ?g = 200"
    "storeItemCalls ?g = []"
    by (simp_all add: eval_defs)
  have h: "gameState ?h = PLAYING" "score ?h = 249" "highScore ?h = 300"
    "storeItemCalls ?h = []"
    by (simp_all add: eval_defs)
  have cg: "length (obstacles (loopStart ?d ?g)) = 1" "collidesAt (loopStart ?d ?g) 0"
    by (simp_all add: eval_defs)
  have ch: "length (obstacles (loopStart ?d ?h)) = 1" "collidesAt (loopStart ?d ?h) 0"
    by (simp_all add: eval_defs)
  have es: "\<forall>e\<in>set ?es. \<not> isRestartKey e" by simp
  have r: "score (run ?g ?es) = 250" "gameState (run ?g ?es) = GAME_OVER"
    by (simp_all add: eval_defs)
  from collision_ends_run [of ?g ?d 0 ?es] g cg es r
  have 1: "gameState (draw ?d ?g) = GAME_OVER \<and> score (draw ?d ?g) = 250 \<and>
      highScore (draw ?d ?g) = 250 \<and>
      storeItemCalls (draw ?d ?g) = [(''astroRunHighScore'', 250)] \<and>
      take 0 (obstacles (draw ?d ?g)) = take 0 (obstacles ?g) \<and>
      storeItemCalls (run ?g ?es) = [(''astroRunHighScore'', 250)]"
    by auto
  from collision_ends_run [of ?h ?d 0 "[]"] h ch
  have 2: "gameState (draw ?d ?h) = GAME_OVER \<and> highScore (draw ?d ?h) = 300 \<and>
      storeItemCalls (draw ?d ?h) = []"
    by auto
  let ?p = pileup_example
  have p: "gameState ?p = PLAYING" "length (obstacles (loopStart ?d ?p)) = 3"
    "collidesAt (loopStart ?d ?p) 1" "\<not> collidesAt (loopStart ?d ?p) 2"
    "take 1 (obstacles ?p) = [Obstacle (- 45) 480 40 40]"
    by (simp_all add: eval_defs)
  have l: "\<forall>j. 1 < j \<and> j < length (obstacles (loopStart ?d ?p)) \<longrightarrow>
      \<not> collidesAt (loopStart ?d ?p) j"
  proof (intro allI impI)
    fix j :: nat
    assume "1 < j \<and> j < length (obstacles (loopStart ?d ?p))"
    then have "1 < j" "j < 3" unfolding p(2) by simp_all
    then have "j = 2" by arith
    then show "\<not> collidesAt (loopStart ?d ?p) j" using p(4) by blast
  qed
  from collision_ends_run [of ?p ?d 1 "[]"] p(1-3) l
  have "take 1 (obstacles (draw ?d ?p)) = take 1 (obstacles ?p)"
    by simp
  with p have 3: "take 1 (obstacles (draw ?d ?p)) = [Obstacle (- 45) 480 40 40]"
    by simp
  from 1 2 3 g h cg p show ?thesis by simp
qed

subsection \<open>Score and difficulty\<close>

text \<open>
  Claim C6.  Every call of \<open>updateGame\<close>, which \<open>draw\<close> makes in every frame of \<open>PLAYING\<close>,
  raises the score by exactly 1 and \<open>obstacleSpeed\<close> by exactly \<open>SPEED_INCREASE\<close>, and sets
  \<open>spawnInterval\<close> to the maximum of 40 and 90 minus a fifteenth of the new score; so
  \<open>spawnInterval\<close> is at least 40 after every frame, whatever the score.
\<close>

theorem playing_tick_difficulty:
  "score (updateGame d g) = score g + 1 \<and>
   obstacleSpeed (updateGame d g) = obstacleSpeed g + SPEED_INCREASE \<and>
   SPEED_INCREASE = 3 / 1000 \<and>
   obstacleSpeed g < obstacleSpeed (updateGame d g) \<and>
   spawnInterval (updateGame d g) =
     max 40 (90 - real_of_int (score (updateGame d g)) / 15) \<and>
   40 \<le> spawnInterval (updateGame d g) \<and>
   (gameState g = PLAYING \<longrightarrow> draw d g = updateGame d g)"
  by (simp add: updateGame_steps draw_PLAYING SPEED_INCREASE_def)

theorem playing_tick_difficulty_witness:
  "gameState (fresh_game None) = PLAYING \<and>
   score (draw example_draws (fresh_game None)) = 1 \<and>
   obstacleSpeed (draw example_draws (fresh_game None)) = 4003 / 1000 \<and>
   spawnInterval (draw example_draws (fresh_game None)) = 1349 / 15"
proof -
  have g: "gameState (fresh_game None) = PLAYING" "score (fresh_game None) = 0"
    "obstacleSpeed (fresh_game None) = 4"
    by (simp_all add: eval_defs)
  from playing_tick_difficulty [of example_draws "fresh_game None"] g
  show ?thesis by (simp add: SPEED_INCREASE_def)
qed

lemma div_100_step_aux:
  fixes q r :: int
  assumes "0 \<le> r" "r < 100"
  shows "100 * (q + 1) \<le> 100 * q + r + 1 \<Longrightarrow> (100 * q + r + 1) div 100 = q + 1"
    and "\<not> 100 * (q + 1) \<le> 100 * q + r + 1 \<Longrightarrow> (100 * q + r + 1) div 100 = q"
proof -
  show "(100 * q + r + 1) div 100 = q + 1" if "100 * (q + 1) \<le> 100 * q + r + 1"
  proof (rule int_div_pos_eq [where r = "r - 99"])
    show "100 * q + r + 1 = 100 * (q + 1) + (r - 99)" by simp
    show "0 \<le> r - 99" using that by simp
    show "r - 99 < 100" using assms by linarith
  qed
  show "(100 * q + r + 1) div 100 = q" if "\<not> 100 * (q + 1) \<le> 100 * q + r + 1"
  proof (rule int_div_pos_eq [where r = "r + 1"])
    show "100 * q + r + 1 = 100 * q + (r + 1)" by simp
    show "0 \<le> r + 1" using assms by linarith
    show "r + 1 < 100" using that by simp
  qed
qed

lemma div_100_step:
  fixes s :: int
  shows "100 * (s div 100 + 1) \<le> s + 1 \<Longrightarrow> (s + 1) div 100 = s div 100 + 1"
    and "\<not> 100 * (s div 100 + 1) \<le> s + 1 \<Longrightarrow> (s + 1) div 100 = s div 100"
  using div_100_step_aux [of "s mod 100" "s div 100"] by simp_all

lemma milestoneInv_updateGame:
  assumes "milestoneInv g"
  shows "milestoneInv (updateGame d g)"
proof -
  from assms have cm: "currentMilestone g = 100 * (score g div 100 + 1)"
    and bi: "backgroundIndex g = score g div 100"
    by (simp_all add: milestoneInv_def SCORE_MILESTONE_def)
  show ?thesis
  proof (cases "currentMilestone g \<le> score g + 1")
    case True
    then have "(score g + 1) div 100 = score g div 100 + 1"
      unfolding cm by (rule div_100_step(1))
    with True cm bi show ?thesis
      by (simp add: milestoneInv_def updateGame_steps SCORE_MILESTONE_def)
  next
    case False
    then have "(score g + 1) div 100 = score g div 100"
      unfolding cm by (rule div_100_step(2))
    with False cm bi show ?thesis
      by (simp add: milestoneInv_def updateGame_steps SCORE_MILESTONE_def)
  qed
qed

lemma step_playing_milestone:
  assumes "gameState g = PLAYING" "milestoneInv g"
  shows "milestoneInv (step g e) \<and>
         score (step g e) = score g + (if isFrame e then 1 else 0)"
proof (cases e)
  case (Frame d)
  then show ?thesis
    using assms milestoneInv_updateGame [of g d]
    by (simp add: draw_PLAYING score_updateGame)
next
  case (KeyPressed ke)
  then show ?thesis
    using assms by (simp add: keyPressed_def milestoneInv_def)
next
  case (WindowResized windowWidth windowHeight)
  then show ?thesis
    using assms by (simp add: windowResized_def milestoneInv_def Let_def)
qed

lemma staysPlaying_milestone:
  "staysPlaying g es \<Longrightarrow> milestoneInv g \<Longrightarrow>
   milestoneInv (run g es) \<and> score (run g es) = score g + int (length (filter isFrame es))"
proof (induction es arbitrary: g)
  case Nil
  then show ?case by (simp add: run_Nil)
next
  case (Cons e es)
  from Cons.prems have p: "gameState g = PLAYING" and s: "staysPlaying (step g e) es"
    by simp_all
  from step_playing_milestone [OF p Cons.prems(2), of e]
  have m: "milestoneInv (step g e)"
    and sc: "score (step g e) = score g + (if isFrame e then 1 else 0)" by simp_all
  from Cons.IH [OF s m] sc show ?case by (simp add: run_Cons)
qed

text \<open>
  Claim C5.  In every call of \<open>updateGame\<close> the background index goes up by exactly 1 and
  the milestone by exactly 100 when the incremented score has reached the milestone, and
  both stay otherwise: never more than one step per frame, however far the score is
  ahead.  From score 0, index 0 and milestone 100, a run that stays in \<open>PLAYING\<close> has index
  \<open>n div 100\<close> after \<open>n\<close> frames; after exactly 100 frames the index is 1 and the milestone
  is 200.
\<close>

theorem milestone_once_per_tick:
  "backgroundIndex (updateGame d g) =
     (if score g + 1 \<ge> currentMilestone g then backgroundIndex g + 1 else backgroundIndex g) \<and>
   currentMilestone (updateGame d g) =
     (if score g + 1 \<ge> currentMilestone g then currentMilestone g + 100
      else currentMilestone g) \<and>
   (gameState g = PLAYING \<longrightarrow> draw d g = updateGame d g) \<and>
   (staysPlaying g es \<and> score g = 0 \<and> backgroundIndex g = 0 \<and> currentMilestone g = 100 \<longrightarrow>
      backgroundIndex (run g es) = int (length (filter isFrame es)) div 100 \<and>
      currentMilestone (run g es) = 100 * (int (length (filter isFrame es)) div 100 + 1)) \<and>
   (staysPlaying g es \<and> score g = 0 \<and> backgroundIndex g = 0 \<and> currentMilestone g = 100 \<and>
    length (filter isFrame es) = 100 \<longrightarrow>
      backgroundIndex (run g es) = 1 \<and> currentMilestone (run g es) = 200)"
proof -
  have gen: "backgroundIndex (run g es) = int (length (filter isFrame es)) div 100 \<and>
      currentMilestone (run g es) = 100 * (int (length (filter isFrame es)) div 100 + 1)"
    if "staysPlaying g es" "score g = 0" "backgroundIndex g = 0" "currentMilestone g = 100"
  proof -
    from that have "milestoneInv g" by (simp add: milestoneInv_def SCORE_MILESTONE_def)
    from staysPlaying_milestone [OF that(1) this] that(2)
    show ?thesis by (simp add: milestoneInv_def SCORE_MILESTONE_def)
  qed
  have "backgroundIndex (run g es) = 1 \<and> currentMilestone (run g es) = 200"
    if "staysPlaying g es" "score g = 0" "backgroundIndex g = 0" "currentMilestone g = 100"
      "length (filter isFrame es) = 100"
    using gen [OF that(1-4)] that(5) by simp
  with gen show ?thesis
    by (simp add: updateGame_steps draw_PLAYING SCORE_MILESTONE_def)
qed

theorem milestone_once_per_tick_witness:
  "staysPlaying (fresh_game None)
     (replicate 50 (Frame example_draws) @ [KeyPressed \<lparr>keyCode = 32, key = '' ''\<rparr>] @
      replicate 50 (Frame example_draws)) \<and>
   score (fresh_game None) = 0 \<and> backgroundIndex (fresh_game None) = 0 \<and>
   currentMilestone (fresh_game None) = 100 \<and>
   length (filter isFrame
     (replicate 50 (Frame example_draws) @ [KeyPressed \<lparr>keyCode = 32, key = '' ''\<rparr>] @
      replicate 50 (Frame example_draws))) = 100 \<and>
   backgroundIndex (run (fresh_game None)
     (replicate 50 (Frame example_draws) @ [KeyPressed \<lparr>keyCode = 32, key = '' ''\<rparr>] @
      replicate 50 (Frame example_draws))) = 1 \<and>
   currentMilestone (run (fresh_game None)
     (replicate 50 (Frame example_draws) @ [KeyPressed \<lparr>keyCode = 32, key = '' ''\<rparr>] @
      replicate 50 (Frame example_draws))) = 200"
proof -
  let ?es = "replicate 50 (Frame example_draws) @
      [KeyPressed \<lparr>keyCode = 32, key = '' ''\<rparr>] @ replicate 50 (Frame example_draws)"
  have s: "staysPlaying (fresh_game None) ?es"
    by (simp add: eval_defs eval_nat_numeral)
  have g: "score (fresh_game None) = 0" "backgroundIndex (fresh_game None) = 0"
    "currentMilestone (fresh_game None) = 100"
    by (simp_all add: eval_defs)
  have l: "length (filter isFrame ?es) = 100"
    by simp
  from milestone_once_per_tick [of example_draws "fresh_game None" ?es] s g l
  have "backgroundIndex (run (fresh_game None) ?es) = 1 \<and>
      currentMilestone (run (fresh_game None) ?es) = 200"
    by blast
  with s g l show ?thesis by blast
qed

subsection \<open>The order of the blocks within a frame\<close>

text \<open>
  Claim C7, as stated: within a frame of \<open>PLAYING\<close> the difficulty update runs first, then
  spawning, the update of the obstacles and the collision test, and the physics of the
  astronaut last.  The code moves the astronaut before it looks at the obstacles: an
  astronaut that falls onto an obstacle during the frame ends the game in that frame,
  which the stated order would not do.
\<close>

theorem updateGame_order_counterexample:
  "gameState (updateGame example_draws falling_example) = GAME_OVER \<and>
   gameState (updateGame_claimed_order example_draws falling_example) = PLAYING"
  by (simp add: eval_defs updateGame_claimed_order_def)

text \<open>
  Claim C7, amended: \<open>updateGame\<close> runs the score and difficulty update with the milestone
  check first, then the physics of the astronaut (gravity, integration, ground check),
  then the spawn timer, and the loop that moves the obstacles and tests them for a
  collision last.  The test therefore sees the astronaut and the speed of the same frame.
\<close>

theorem updateGame_order:
  "updateGame d g = handleObstacles (spawnStep d (astronautStep (difficultyStep g))) \<and>
   astronaut (updateGame d g) =
     checkGroundCollision (groundY g)
       (Astronaut_update (groundY g) (applyGravity (astronaut g))) \<and>
   (gameState g = PLAYING \<longrightarrow>
      draw d g = updateGame d g \<and>
      (gameState (draw d g) = GAME_OVER \<longleftrightarrow>
         (\<exists>i<length (obstacles (spawnStep d (difficultyStep g))).
            hits (astronaut (draw d g))
              (Obstacle_update (obstacleSpeed (draw d g))
                 (obstacles (spawnStep d (difficultyStep g)) ! i)))))"
proof (intro conjI impI)
  show "updateGame d g = handleObstacles (spawnStep d (astronautStep (difficultyStep g)))"
    by (rule updateGame_steps)
  show "astronaut (updateGame d g) =
     checkGroundCollision (groundY g)
       (Astronaut_update (groundY g) (applyGravity (astronaut g)))"
    by (simp add: updateGame_steps)
next
  assume p: "gameState g = PLAYING"
  show "draw d g = updateGame d g" using p by (rule draw_PLAYING)
  let ?g1 = "spawnStep d (astronautStep (difficultyStep g))"
  have o: "obstacles (spawnStep d (difficultyStep g)) = obstacles ?g1"
    by simp
  have a: "astronaut (draw d g) = astronaut ?g1" "obstacleSpeed (draw d g) = obstacleSpeed ?g1"
    using p by (simp_all add: draw_PLAYING updateGame_steps)
  have "gameState (updateGame d g) = GAME_OVER \<longleftrightarrow>
        (\<exists>i<length (obstacles ?g1). collidesAt ?g1 i)"
    using updateGame_outcome [of d g] p by auto
  then show "gameState (draw d g) = GAME_OVER \<longleftrightarrow>
         (\<exists>i<length (obstacles (spawnStep d (difficultyStep g))).
            hits (astronaut (draw d g))
              (Obstacle_update (obstacleSpeed (draw d g))
                 (obstacles (spawnStep d (difficultyStep g)) ! i)))"
    unfolding o a collidesAt_def using p by (simp only: draw_PLAYING)
qed

theorem updateGame_order_witness:
  "gameState falling_example = PLAYING \<and>
   gameState (draw example_draws falling_example) = GAME_OVER \<and>
   hits (astronaut (draw example_draws falling_example))
     (Obstacle_update (obstacleSpeed (draw example_draws falling_example))
        (obstacles falling_example ! 0)) \<and>
   \<not> hits (astronaut falling_example)
     (Obstacle_update (obstacleSpeed (draw example_draws falling_example))
        (obstacles falling_example ! 0))"
proof -
  have g: "gameState falling_example = PLAYING"
    by (simp add: eval_defs)
  have o: "obstacles (spawnStep example_draws (difficultyStep falling_example)) =
      obstacles falling_example" "length (obstacles falling_example) = 1"
    by (simp_all add: eval_defs)
  have e: "gameState (draw example_draws falling_example) = GAME_OVER"
    by (simp add: eval_defs)
  have n: "\<not> hits (astronaut falling_example)
     (Obstacle_update (obstacleSpeed (draw example_draws falling_example))
        (obstacles falling_example ! 0))"
    by (simp add: eval_defs)
  from updateGame_order [of example_draws falling_example] g
  have "gameState (draw example_draws falling_example) = GAME_OVER \<longleftrightarrow>
      (\<exists>i<length (obstacles (spawnStep example_draws (difficultyStep falling_example))).
         hits (astronaut (draw example_draws falling_example))
           (Obstacle_update (obstacleSpeed (draw example_draws falling_example))
              (obstacles (spawnStep example_draws (difficultyStep falling_example)) ! i)))"
    by blast
  with e have "\<exists>i<length (obstacles falling_example).
      hits (astronaut (draw example_draws falling_example))
        (Obstacle_update (obstacleSpeed (draw example_draws falling_example))
           (obstacles falling_example ! i))"
    unfolding o(1) by blast
  then have "hits (astronaut (draw example_draws falling_example))
        (Obstacle_update (obstacleSpeed (draw example_draws falling_example))
           (obstacles falling_example ! 0))"
    unfolding o(2) by simp
  with g e n show ?thesis by simp
qed

subsection \<open>Reset\<close>

text \<open>
  Claim C8.  \<open>resetGame\<close> sets the score to 0, the background index to 0, the milestone to
  \<open>SCORE_MILESTONE\<close> (100), empties the obstacles, sets \<open>obstacleSpeed\<close> to \<open>START_SPEED\<close>,
  sets \<open>spawnTimer\<close> to the value that \<open>spawnInterval\<close> has at that moment (it does not
  reset \<open>spawnInterval\<close>), and puts the astronaut through \<open>reset\<close> at a quarter of the
  canvas width, standing on the ground line, with zero velocity and acceleration,
  grounded and with no jump used.  Everything else is left as it was.
\<close>

theorem resetGame_establishes:
  "score (resetGame g) = 0 \<and> backgroundIndex (resetGame g) = 0 \<and>
   currentMilestone (resetGame g) = SCORE_MILESTONE \<and> SCORE_MILESTONE = 100 \<and>
   obstacles (resetGame g) = [] \<and>
   obstacleSpeed (resetGame g) = START_SPEED \<and> START_SPEED = 4 \<and>
   spawnTimer (resetGame g) = spawnInterval g \<and>
   spawnInterval (resetGame g) = spawnInterval g \<and>
   astronaut (resetGame g) =
     reset (width g / 4) (groundY g - astro_h (astronaut g) / 2) (astronaut g) \<and>
   pos (astronaut (resetGame g)) =
     \<lparr>vx = width g / 4, vy = groundY g - astro_h (astronaut g) / 2\<rparr> \<and>
   vel (astronaut (resetGame g)) = \<lparr>vx = 0, vy = 0\<rparr> \<and>
   acc (astronaut (resetGame g)) = \<lparr>vx = 0, vy = 0\<rparr> \<and>
   isGrounded (astronaut (resetGame g)) \<and> jumpCount (astronaut (resetGame g)) = 0 \<and>
   astro_w (astronaut (resetGame g)) = astro_w (astronaut g) \<and>
   astro_h (astronaut (resetGame g)) = astro_h (astronaut g) \<and>
   highScore (resetGame g) = highScore g \<and> gameState (resetGame g) = gameState g \<and>
   groundY (resetGame g) = groundY g \<and> width (resetGame g) = width g \<and>
   storeItemCalls (resetGame g) = storeItemCalls g \<and>
   pos (astronaut (resetGame (setupGame cw ch stored))) =
     pos (astronaut (setupGame cw ch stored)) \<and>
   spawnTimer (resetGame (g\<lparr>spawnInterval := 40\<rparr>)) = 40"
  by (simp add: resetGame_def reset_def createVector_def Let_def SCORE_MILESTONE_def
      START_SPEED_def setupGame_def new_Astronaut_def)

subsection \<open>Keys without a role\<close>

text \<open>
  Claim C10.  The space key (key code 32) in state \<open>GAME_OVER\<close>, and every other key, the
  restart key included, in state \<open>START\<close> or \<open>PLAYING\<close>, leave the whole game state as it
  was.  A key press changes the state only if it is the space key in \<open>START\<close> or \<open>PLAYING\<close>
  or the key \<open>r\<close> or \<open>R\<close> in \<open>GAME_OVER\<close>.
\<close>

theorem keyPressed_no_role:
  "(keyCode ke = 32 \<and> gameState g = GAME_OVER \<longrightarrow> keyPressed ke g = g) \<and>
   (keyCode ke \<noteq> 32 \<and> (gameState g = START \<or> gameState g = PLAYING) \<longrightarrow>
      keyPressed ke g = g) \<and>
   (keyPressed ke g \<noteq> g \<longrightarrow>
      (keyCode ke = 32 \<and> (gameState g = START \<or> gameState g = PLAYING)) \<or>
      (keyCode ke \<noteq> 32 \<and> (key ke = ''r'' \<or> key ke = ''R'') \<and> gameState g = GAME_OVER))"
  by (cases "gameState g") (simp_all add: keyPressed_def)

theorem keyPressed_no_role_witness:
  "gameState ((fresh_game None)\<lparr>gameState := GAME_OVER\<rparr>) = GAME_OVER \<and>
   keyPressed \<lparr>keyCode = 32, key = '' ''\<rparr> ((fresh_game None)\<lparr>gameState := GAME_OVER\<rparr>) =
     (fresh_game None)\<lparr>gameState := GAME_OVER\<rparr> \<and>
   gameState (fresh_game None) = PLAYING \<and>
   keyPressed \<lparr>keyCode = 82, key = ''r''\<rparr> (fresh_game None) = fresh_game None \<and>
   gameState (setupGame 800 600 None) = START \<and>
   keyPressed \<lparr>keyCode = 82, key = ''R''\<rparr> (setupGame 800 600 None) =
     setupGame 800 600 None \<and>
   keyPressed \<lparr>keyCode = 32, key = '' ''\<rparr> (fresh_game None) \<noteq> fresh_game None"
proof -
  have g: "gameState ((fresh_game None)\<lparr>gameState := GAME_OVER\<rparr>) = GAME_OVER"
    "gameState (fresh_game None) = PLAYING" "gameState (setupGame 800 600 None) = START"
    by (simp_all add: eval_defs)
  have "isGrounded (astronaut (fresh_game None))"
    "\<not> isGrounded (astronaut (keyPressed \<lparr>keyCode = 32, key = '' ''\<rparr> (fresh_game None)))"
    by (simp_all add: eval_defs)
  then have n: "keyPressed \<lparr>keyCode = 32, key = '' ''\<rparr> (fresh_game None) \<noteq> fresh_game None"
    by auto
  from keyPressed_no_role [of "\<lparr>keyCode = 32, key = '' ''\<rparr>"
      "(fresh_game None)\<lparr>gameState := GAME_OVER\<rparr>"]
    keyPressed_no_role [of "\<lparr>keyCode = 82, key = ''r''\<rparr>" "fresh_game None"]
    keyPressed_no_role [of "\<lparr>keyCode = 82, key = ''R''\<rparr>" "setupGame 800 600 None"]
    keyPressed_no_role [of "\<lparr>keyCode = 32, key = '' ''\<rparr>" "fresh_game None"]
    g n
  show ?thesis by simp
qed

subsection \<open>The astronaut between frames\<close>

















end
